theory Spec2Isabelle
  imports Main "HOL-Library.Sublist"
begin

section \<open>Python strings\<close>

text \<open>
  A Python \<open>str\<close> is modelled as a \<open>string\<close>: one \<open>char\<close> per code point, for the
  code points below 256. On that range the classes of the \<open>re\<close> module for \<open>str\<close>
  patterns are: \<open>\d\<close> the ten ASCII digits, \<open>\s\<close> the code points for which
  \<open>str.isspace\<close> holds (9 to 13, 28 to 32, 133 and 160), and \<open>.\<close> every code point
  but the line feed. \<open>str.strip()\<close> removes leading and trailing \<open>str.isspace\<close>
  characters.
\<close>

definition newline :: char where
  "newline = CHR 0x0A"

definition is_space :: "char \<Rightarrow> bool" where
  "is_space c = (let n = of_char c :: nat in
     (9 \<le> n \<and> n \<le> 13) \<or> (28 \<le> n \<and> n \<le> 32) \<or> n = 133 \<or> n = 160)"

definition is_digit :: "char \<Rightarrow> bool" where
  "is_digit c = (let n = of_char c :: nat in 48 \<le> n \<and> n \<le> 57)"

definition not_newline :: "char \<Rightarrow> bool" where
  "not_newline c = (c \<noteq> newline)"

definition strip :: "string \<Rightarrow> string" where
  "strip s = rev (dropWhile is_space (rev (dropWhile is_space s)))"

text \<open>\<open>str(n)\<close> for a non-negative integer, as the f-string \<open>f"Slide {i+2}"\<close> formats it.\<close>

definition digit_char :: "nat \<Rightarrow> char" where
  "digit_char d = char_of (48 + d)"

function str_nat :: "nat \<Rightarrow> string" where
  "str_nat n = (if n < 10 then [digit_char n] else str_nat (n div 10) @ [digit_char (n mod 10)])"
  by pat_completeness auto
termination
  by (relation "measure id") auto

declare str_nat.simps [simp del]

section \<open>Exceptions\<close>

text \<open>
  The exceptions that matter here. \<open>Raised m\<close> is an exception \<open>e\<close> of a collaborator
  (the remote model service, a document library) with \<open>str(e) = m\<close>. A call of a
  collaborator is a value \<open>Inl m\<close> when it raises such an exception and \<open>Inr v\<close>
  when it returns \<open>v\<close>.
\<close>

datatype py_error = IndexError | UnboundLocalError | Raised string

type_synonym 'a outcome = "string + 'a"

section \<open>Configuration\<close>

definition MAX_SLIDES :: nat where
  "MAX_SLIDES = 10"

definition PROCESSING_CHUNK_SIZE :: nat where
  "PROCESSING_CHUNK_SIZE = 15000"

definition PPT_FONT :: string where
  "PPT_FONT = ''Calibri''"

section \<open>The three regular expressions of the slide parser\<close>

text \<open>
  \<open>\*\*Slide \d+:.*?\*\*\<close>, the slide marker. A match attempt at the start of a string
  returns the matched text and the rest of the string.

  The lazy \<open>.*?\<close> followed by \<open>\*\*\<close> tries the shortest label first: it stops at the
  first position where two asterisks follow, and fails when a line feed or the end of the
  string comes before.
\<close>

fun lazy_until_stars :: "string \<Rightarrow> (string \<times> string) option" where
  "lazy_until_stars [] = None"
| "lazy_until_stars (c # cs) =
     (if prefix ''**'' (c # cs) then Some (''**'', drop 2 (c # cs))
      else if c = newline then None
      else (case lazy_until_stars cs of
              None \<Rightarrow> None
            | Some (m, r) \<Rightarrow> Some (c # m, r)))"

text \<open>
  The greedy \<open>\d+\<close> takes the longest run of digits. Backtracking to a shorter run cannot
  help, because the colon would then have to match a digit.
\<close>

definition match_marker :: "string \<Rightarrow> (string \<times> string) option" where
  "match_marker s =
     (if prefix ''**Slide '' s then
        (let r1 = drop 8 s; ds = takeWhile is_digit r1; r2 = dropWhile is_digit r1 in
         if ds = [] then None
         else (case r2 of
                 [] \<Rightarrow> None
               | c # r3 \<Rightarrow>
                   if c = CHR '':'' then
                     (case lazy_until_stars r3 of
                        None \<Rightarrow> None
                      | Some (m, r) \<Rightarrow> Some (''**Slide '' @ ds @ '':'' @ m, r))
                   else None))
      else None)"

lemma lazy_until_stars_length:
  "lazy_until_stars s = Some (m, r) \<Longrightarrow> length r < length s"
  by (induction s arbitrary: m) (auto split: if_splits option.splits)

lemma match_marker_length:
  assumes "match_marker s = Some (m, r)"
  shows "length r < length s"
proof -
  from assms obtain c r3 m' where
    r2: "dropWhile is_digit (drop 8 s) = c # r3" and
    l: "lazy_until_stars r3 = Some (m', r)"
    by (auto simp: match_marker_def Let_def split: if_splits list.splits option.splits)
  have "length r < length r3"
    using l by (rule lazy_until_stars_length)
  also have "length r3 < length (dropWhile is_digit (drop 8 s))"
    by (simp add: r2)
  also have "\<dots> \<le> length (drop 8 s)"
    by (rule length_dropWhile_le)
  also have "\<dots> \<le> length s"
    by simp
  finally show ?thesis .
qed

text \<open>
  \<open>re.findall(marker, text)\<close>: the matches from left to right, each search resuming where
  the last match ended. A marker match is never empty.
\<close>

function re_findall_marker :: "string \<Rightarrow> string list" where
  "re_findall_marker [] = []"
| "re_findall_marker (c # cs) =
     (case match_marker (c # cs) of
        Some (m, r) \<Rightarrow> m # re_findall_marker r
      | None \<Rightarrow> re_findall_marker cs)"
  by pat_completeness auto
termination
  by (relation "measure length") (auto dest: match_marker_length)

text \<open>
  \<open>re.split(marker, text)\<close>: the pieces of the text between the matches; the pattern has
  no capture group, so the matched text is dropped.
\<close>

definition cons_first :: "char \<Rightarrow> string list \<Rightarrow> string list" where
  "cons_first c fs = (case fs of [] \<Rightarrow> [[c]] | f # fs' \<Rightarrow> (c # f) # fs')"

function re_split_marker :: "string \<Rightarrow> string list" where
  "re_split_marker [] = [[]]"
| "re_split_marker (c # cs) =
     (case match_marker (c # cs) of
        Some (m, r) \<Rightarrow> [] # re_split_marker r
      | None \<Rightarrow> cons_first c (re_split_marker cs))"
  by pat_completeness auto
termination
  by (relation "measure length") (auto dest: match_marker_length)

text \<open>
  \<open>re.search(r'\*\*Title:\*\*\s*(.*)', content)\<close>: the leftmost occurrence of the literal;
  the greedy \<open>\s*\<close> then takes all the white space that follows (line feeds too) and group 1
  the rest of that line. The result is group 1 of the match, \<open>None\<close> when there is none.
\<close>

fun re_search_title :: "string \<Rightarrow> string option" where
  "re_search_title [] = None"
| "re_search_title (c # cs) =
     (if prefix ''**Title:**'' (c # cs)
      then Some (takeWhile not_newline (dropWhile is_space (drop 10 (c # cs))))
      else re_search_title cs)"

text \<open>
  \<open>re.findall(r'\*\s+(.*)', content)\<close>: with one group in the pattern the result lists
  group 1 of every match. A match starts at an asterisk followed by white space, and ends
  at the end of the line that the white space leads to.
\<close>

function re_findall_bullets :: "string \<Rightarrow> string list" where
  "re_findall_bullets [] = []"
| "re_findall_bullets (c # cs) =
     (if c = CHR ''*'' \<and> (case cs of [] \<Rightarrow> False | d # _ \<Rightarrow> is_space d)
      then (let r = dropWhile is_space cs
            in takeWhile not_newline r # re_findall_bullets (dropWhile not_newline r))
      else re_findall_bullets cs)"
  by pat_completeness auto
termination
proof (relation "measure length", goal_cases)
  case 1
  show ?case by simp
next
  case (2 c cs r)
  have "length (dropWhile not_newline (dropWhile is_space cs)) \<le> length cs"
    by (meson le_trans length_dropWhile_le)
  with 2 show ?case by simp
next
  case (3 c cs)
  show ?case by simp
qed

section \<open>The slide loop of \<open>ppt_from_pdf\<close>\<close>

record slide_record =
  title :: string
  bullets :: "string list"

text \<open>\<open>xs[i]\<close> for a non-negative index: out of range it raises \<open>IndexError\<close>.\<close>

definition py_index :: "'a list \<Rightarrow> nat \<Rightarrow> py_error + 'a" where
  "py_index xs i = (if i < length xs then Inr (xs ! i) else Inl IndexError)"

text \<open>\<open>content = slides[i+1] if i+1 < len(slides) else ""\<close>\<close>

definition slide_content :: "string list \<Rightarrow> nat \<Rightarrow> py_error + string" where
  "slide_content slides i = (if i + 1 < length slides then py_index slides (i + 1) else Inr [])"

text \<open>The title and the bullets that one iteration computes from its content.\<close>

definition slide_title :: "nat \<Rightarrow> string \<Rightarrow> string" where
  "slide_title i content =
     (case re_search_title content of
        Some g \<Rightarrow> strip g
      | None \<Rightarrow> ''Slide '' @ str_nat (i + 2))"

definition build_record :: "nat \<Rightarrow> string \<Rightarrow> slide_record" where
  "build_record i content =
     \<lparr>title = slide_title i content, bullets = re_findall_bullets content\<rparr>"

text \<open>
  \<open>for i, header in enumerate(headers)\<close>, from index \<open>i\<close> on. The source adds each slide
  to the presentation in the same iteration; those statements read the title and the
  bullets only, so the loop is modelled as producing the records, which \<open>render\<close> below
  turns into slides.
\<close>

fun slide_loop :: "string list \<Rightarrow> nat \<Rightarrow> string list \<Rightarrow> py_error + slide_record list" where
  "slide_loop slides i [] = Inr []"
| "slide_loop slides i (header # headers) =
     (case slide_content slides i of
        Inl e \<Rightarrow> Inl e
      | Inr content \<Rightarrow>
          (case slide_loop slides (i + 1) headers of
             Inl e \<Rightarrow> Inl e
           | Inr rs \<Rightarrow> Inr (build_record i content # rs)))"

definition parse_slides :: "string \<Rightarrow> py_error + slide_record list" where
  "parse_slides slide_structure =
     (let slides = re_split_marker slide_structure;
          headers = re_findall_marker slide_structure
      in slide_loop slides 0 headers)"

section \<open>The presentation built by \<open>ppt_from_pdf\<close>\<close>

text \<open>
  The presentation library is a collaborator: a presentation is the list of the slides
  added to it, a slide the layout it was added with, the title text, the text of
  placeholder 1 when the source sets it, and the paragraphs the source adds to that
  placeholder's text frame with the properties it sets on them.
\<close>

datatype pp_align = LEFT | CENTER | RIGHT

record ppt_paragraph =
  para_text :: string
  font_size_pt :: nat
  font_rgb :: "nat \<times> nat \<times> nat"
  font_name :: string
  alignment :: pp_align

record slide =
  layout :: nat
  title_text :: string
  placeholder_text :: "string option"
  paragraphs :: "ppt_paragraph list"

text \<open>
  The title slide; \<open>today\<close> is \<open>datetime.now().strftime('%d %B %Y')\<close>.
\<close>

definition title_slide :: "string \<Rightarrow> string \<Rightarrow> slide" where
  "title_slide ppt_title today =
     \<lparr>layout = 0, title_text = ppt_title,
      placeholder_text = Some (''Generated on '' @ today), paragraphs = []\<rparr>"

definition bullet_paragraph :: "string \<Rightarrow> ppt_paragraph" where
  "bullet_paragraph bullet =
     \<lparr>para_text = bullet, font_size_pt = 18, font_rgb = (0, 0, 0),
      font_name = PPT_FONT, alignment = LEFT\<rparr>"

definition content_slide :: "slide_record \<Rightarrow> slide" where
  "content_slide r =
     \<lparr>layout = 1, title_text = title r, placeholder_text = None,
      paragraphs = map bullet_paragraph (bullets r)\<rparr>"

definition render :: "string \<Rightarrow> string \<Rightarrow> slide_record list \<Rightarrow> slide list" where
  "render ppt_title today records = title_slide ppt_title today # map content_slide records"

text \<open>The body of \<open>if st.button("Generate PowerPoint")\<close>, up to \<open>prs.save\<close>.\<close>

definition generate_powerpoint :: "string \<Rightarrow> string \<Rightarrow> string \<Rightarrow> py_error + slide list" where
  "generate_powerpoint ppt_title today slide_structure =
     (case parse_slides slide_structure of
        Inl e \<Rightarrow> Inl e
      | Inr records \<Rightarrow> Inr (render ppt_title today records))"

section \<open>Text extraction in \<open>ppt_from_pdf\<close>\<close>

text \<open>
  The uploaded file as the two libraries see it. \<open>plumber\<close> is
  \<open>pdfplumber.open(pdf_file)\<close> with its \<open>pages\<close>, each page the outcome of
  \<open>page.extract_text()\<close> (which may be \<open>None\<close>); \<open>pypdf\<close> is
  \<open>PdfReader(pdf_file)\<close> with its \<open>pages\<close>, each page the outcome of
  \<open>page.extract_text()\<close>.
\<close>

record pdf_file =
  plumber :: "string option outcome list outcome"
  pypdf :: "string outcome list outcome"

text \<open>\<open>f"\\n\\n[Page {i+1}]\\n{page_text}"\<close>\<close>

definition page_block :: "nat \<Rightarrow> string \<Rightarrow> string" where
  "page_block i page_text =
     [newline, newline] @ ''[Page '' @ str_nat (i + 1) @ '']'' @ [newline] @ page_text"

text \<open>
  The loop of the \<open>try\<close> block from page \<open>i\<close> on. It returns the text accumulated
  so far and whether an exception ended it: \<open>text\<close> is a local variable of the handler
  and keeps what was added before the exception.
\<close>

fun plumber_loop :: "nat \<Rightarrow> string option outcome list \<Rightarrow> string \<Rightarrow> string \<times> bool" where
  "plumber_loop i [] text = (text, False)"
| "plumber_loop i (page # pages) text =
     (case page of
        Inl e \<Rightarrow> (text, True)
      | Inr page_text \<Rightarrow>
          (let text' = (case page_text of
                          None \<Rightarrow> text
                        | Some t \<Rightarrow> if t = [] then text else text @ page_block i t)
           in if length text' > PROCESSING_CHUNK_SIZE then (text', False)
              else plumber_loop (i + 1) pages text'))"

definition primary :: "pdf_file \<Rightarrow> string \<times> bool" where
  "primary pdf =
     (case plumber pdf of
        Inl e \<Rightarrow> ([], True)
      | Inr pages \<Rightarrow> plumber_loop 0 pages [])"

text \<open>The loop of the bare \<open>except:\<close> block; nothing catches what it raises.\<close>

fun pypdf_loop :: "string outcome list \<Rightarrow> string \<Rightarrow> py_error + string" where
  "pypdf_loop [] text = Inr text"
| "pypdf_loop (page # pages) text =
     (case page of
        Inl e \<Rightarrow> Inl (Raised e)
      | Inr t \<Rightarrow>
          (let text' = text @ t
           in if length text' > PROCESSING_CHUNK_SIZE then Inr text'
              else pypdf_loop pages text'))"

definition fallback :: "pdf_file \<Rightarrow> string \<Rightarrow> py_error + string" where
  "fallback pdf text =
     (case pypdf pdf of
        Inl e \<Rightarrow> Inl (Raised e)
      | Inr pages \<Rightarrow> pypdf_loop pages text)"

text \<open>
  The \<open>with st.spinner("Extracting text...")\<close> block. \<open>Inl e\<close>: the exception \<open>e\<close>
  leaves the handler. \<open>Inr Failed_to_extract\<close>: \<open>st.error("Failed to extract text.")\<close>
  and \<open>return\<close>. \<open>Inr (Extracted text)\<close>: the handler goes on with \<open>text\<close>.
\<close>

datatype extraction = Failed_to_extract | Extracted string

definition extract_text :: "pdf_file \<Rightarrow> py_error + extraction" where
  "extract_text pdf =
     (case primary pdf of
        (text, raised) \<Rightarrow>
          (case (if raised then fallback pdf text else Inr text) of
             Inl e \<Rightarrow> Inl e
           | Inr text' \<Rightarrow>
               if text' = [] then Inr Failed_to_extract else Inr (Extracted text')))"

section \<open>One conversation turn of \<open>pdf_chat\<close> and \<open>csv_chat\<close>\<close>

text \<open>
  The per-tab entry of \<open>st.session_state\<close>. The file and chat handles are opaque.
  \<open>csv_chat\<close> keeps one more key, \<open>df\<close>; the turn below is defined on the record
  scheme and so serves both tabs.
\<close>

record message =
  role :: string
  content :: string

record ('f, 'c) chat_state =
  messages :: "message list"
  file_processed :: bool
  gemini_file :: "'f option"
  chat_session :: "'c option"

record ('f, 'c, 'd) csv_chat_state = "('f, 'c) chat_state" +
  df :: "'d option"

text \<open>What the page shows: \<open>st.markdown(body)\<close> inside \<open>st.chat_message(role)\<close>.\<close>

datatype ui_element = Chat_markdown string string

text \<open>
  A response of the service is the outcome of reading its \<open>text\<close> attribute (the
  attribute raises when the reply has no text part).
  \<open>st.session_state.pdf_chat["chat_session"].send_message(prompt)\<close>: on \<open>None\<close> (no
  file processed yet) the attribute lookup raises \<open>AttributeError\<close>.
\<close>

type_synonym response = "string outcome"

definition none_has_no_send_message :: string where
  "none_has_no_send_message =
     [CHR 0x27] @ ''NoneType'' @ [CHR 0x27] @ '' object has no attribute '' @
     [CHR 0x27] @ ''send_message'' @ [CHR 0x27]"

definition call_send_message ::
  "('c \<Rightarrow> string \<Rightarrow> response outcome) \<Rightarrow> 'c option \<Rightarrow> string \<Rightarrow> response outcome" where
  "call_send_message send_message session prompt =
     (case session of
        None \<Rightarrow> Inl none_has_no_send_message
      | Some chat \<Rightarrow> send_message chat prompt)"

text \<open>
  The \<open>try\<close> statement: it returns the local variable \<open>response\<close> (\<open>None\<close> while
  unbound) and what it rendered. \<open>except Exception\<close> catches the exception of
  \<open>send_message\<close> and the one of \<open>response.text\<close> alike.
\<close>

definition try_send ::
  "response outcome \<Rightarrow> response option \<times> string" where
  "try_send sent =
     (case sent of
        Inl m \<Rightarrow> (None, ''Error: '' @ m)
      | Inr resp \<Rightarrow>
          (case resp of
             Inl m \<Rightarrow> (Some resp, ''Error: '' @ m)
           | Inr t \<Rightarrow> (Some resp, t)))"

text \<open>
  \<open>if prompt := st.chat_input(...)\<close> and its body. \<open>prompt\<close> is \<open>None\<close> when nothing
  was submitted; an empty string is false as well. The result is the exception that leaves
  the handler, if any, the session state and the page.
\<close>

definition chat_turn ::
  "('c \<Rightarrow> string \<Rightarrow> response outcome) \<Rightarrow> ('f, 'c, 'z) chat_state_scheme \<Rightarrow>
   ui_element list \<Rightarrow> string option \<Rightarrow>
   (py_error + unit) \<times> ('f, 'c, 'z) chat_state_scheme \<times> ui_element list" where
  "chat_turn send_message st ui prompt =
     (case prompt of
        None \<Rightarrow> (Inr (), st, ui)
      | Some p \<Rightarrow>
          if p = [] then (Inr (), st, ui)
          else
            (let st1 = st\<lparr>messages := messages st @ [\<lparr>role = ''user'', content = p\<rparr>]\<rparr>;
                 ui1 = ui @ [Chat_markdown ''user'' p];
                 (response, shown) = try_send (call_send_message send_message (chat_session st1) p);
                 ui2 = ui1 @ [Chat_markdown ''assistant'' shown]
             in (case response of
                   None \<Rightarrow> (Inl UnboundLocalError, st1, ui2)
                 | Some resp \<Rightarrow>
                     (case resp of
                        Inl m \<Rightarrow> (Inl (Raised m), st1, ui2)
                      | Inr t \<Rightarrow>
                          (Inr (),
                           st1\<lparr>messages := messages st1 @ [\<lparr>role = ''assistant'', content = t\<rparr>]\<rparr>,
                           ui2)))))"

section \<open>The order of fragments and markers\<close>

text \<open>
  The text that a list of fragments and a list of markers stand for: fragment 0, marker 0,
  fragment 1, marker 1 and so on.
\<close>

fun interleave :: "string list \<Rightarrow> string list \<Rightarrow> string" where
  "interleave [] hs = []"
| "interleave (f # fs) [] = f"
| "interleave (f # fs) (h # hs) = f @ h @ interleave fs hs"

text \<open>
  The shape of a slide marker, stated without the matcher: the literal \<open>**Slide\<close> and a
  blank, at least one digit, a colon, a label on one line, two asterisks.
\<close>

definition is_marker :: "string \<Rightarrow> bool" where
  "is_marker h = (\<exists>ds label. h = ''**Slide '' @ ds @ '':'' @ label @ ''**'' \<and>
      ds \<noteq> [] \<and> list_all is_digit ds \<and> list_all not_newline label)"

text \<open>A piece of text contains a marker when some part of it has that shape.\<close>

definition contains_marker :: "string \<Rightarrow> bool" where
  "contains_marker f = (\<exists>p m r. f = p @ m @ r \<and> is_marker m)"

section \<open>Sample inputs\<close>

definition dquote :: char where
  "dquote = CHR 0x22"

definition example_text :: string where
  "example_text =
     ''**Slide 1: X**'' @ [newline] @
     ''* **Title:** '' @ [dquote] @ ''A'' @ [dquote] @ [newline] @
     ''* B1'' @ [newline] @
     ''* B2'' @ [newline] @
     ''**Slide 2: Y**'' @ [newline] @
     ''* **Title:** '' @ [dquote] @ ''C'' @ [dquote]"

definition claimed_records :: "slide_record list" where
  "claimed_records =
     [\<lparr>title = ''A'', bullets = [''B1'', ''B2'']\<rparr>, \<lparr>title = ''C'', bullets = []\<rparr>]"

definition eleven_markers :: string where
  "eleven_markers = concat (replicate 11 ''**Slide 1:**'')"

definition failing_send :: "unit \<Rightarrow> string \<Rightarrow> response outcome" where
  "failing_send chat prompt = Inl ''boom''"

definition echo_send :: "unit \<Rightarrow> string \<Rightarrow> response outcome" where
  "echo_send chat prompt = Inr (Inr (''You said: '' @ prompt))"

definition ready_state :: "(unit, unit) chat_state" where
  "ready_state =
     \<lparr>messages = [\<lparr>role = ''assistant'', content = ''Hi! Ready to help with your PDF.''\<rparr>],
      file_processed = True, gemini_file = Some (), chat_session = Some ()\<rparr>"

definition broken_pdf :: pdf_file where
  "broken_pdf = \<lparr>plumber = Inl ''primary failed'', pypdf = Inl ''fallback failed''\<rparr>"

section \<open>Facts about the matchers and the loop\<close>

lemma re_split_marker_nonempty: "re_split_marker s \<noteq> []"
  by (induction s rule: re_split_marker.induct) (auto simp: cons_first_def split: option.splits list.splits)

lemma length_cons_first: "fs \<noteq> [] \<Longrightarrow> length (cons_first c fs) = length fs"
  by (cases fs) (auto simp: cons_first_def)

lemma length_re_split_marker:
  "length (re_split_marker s) = length (re_findall_marker s) + 1"
  by (induction s rule: re_findall_marker.induct)
     (auto simp: length_cons_first re_split_marker_nonempty split: option.splits)

lemma slide_content_total:
  "slide_content slides i = Inr (if i + 1 < length slides then slides ! (i + 1) else [])"
  by (simp add: slide_content_def py_index_def)

lemma slide_loop_eq:
  "slide_loop slides i headers =
     Inr (map (\<lambda>(j, h). build_record j (if j + 1 < length slides then slides ! (j + 1) else []))
            (enumerate i headers))"
  by (induction headers arbitrary: i) (simp_all add: slide_content_total)

lemma interleave_cons_first:
  "fs \<noteq> [] \<Longrightarrow> interleave (cons_first c fs) hs = c # interleave fs hs"
  by (cases fs; cases hs) (auto simp: cons_first_def)

lemma lazy_until_stars_append:
  "lazy_until_stars s = Some (m, r) \<Longrightarrow> s = m @ r"
  by (induction s arbitrary: m) (auto split: if_splits option.splits simp: prefix_def)

lemma match_marker_append:
  assumes "match_marker s = Some (m, r)"
  shows "s = m @ r"
proof -
  from assms obtain r3 m' where
    p: "prefix ''**Slide '' s" and
    r2: "dropWhile is_digit (drop 8 s) = CHR '':'' # r3" and
    l: "lazy_until_stars r3 = Some (m', r)" and
    m: "m = ''**Slide '' @ takeWhile is_digit (drop 8 s) @ '':'' @ m'"
    by (auto simp: match_marker_def Let_def split: if_splits list.splits option.splits)
  from p have "s = ''**Slide '' @ drop 8 s"
    by (auto simp: prefix_def)
  also have "drop 8 s = takeWhile is_digit (drop 8 s) @ dropWhile is_digit (drop 8 s)"
    by simp
  also have "dropWhile is_digit (drop 8 s) = '':'' @ m' @ r"
    using r2 lazy_until_stars_append [OF l] by simp
  finally show ?thesis
    by (simp add: m)
qed

lemma interleave_markers:
  "interleave (re_split_marker s) (re_findall_marker s) = s"
  by (induction s rule: re_findall_marker.induct)
     (auto simp: interleave_cons_first re_split_marker_nonempty dest: match_marker_append split: option.splits)



lemma lazy_until_stars_shape:
  "lazy_until_stars s = Some (m, r) \<Longrightarrow> \<exists>label. m = label @ ''**'' \<and> list_all not_newline label"
proof (induction s arbitrary: m)
  case Nil
  then show ?case by simp
next
  case (Cons c cs)
  show ?case
  proof (cases "prefix ''**'' (c # cs)")
    case True
    with Cons.prems have "m = [] @ ''**''" by auto
    then show ?thesis by (intro exI [of _ "[]"]) simp
  next
    case False
    with Cons.prems obtain m' where c: "c \<noteq> newline" and l: "lazy_until_stars cs = Some (m', r)" and m: "m = c # m'"
      by (auto split: if_splits option.splits)
    from Cons.IH [OF l] obtain label where "m' = label @ ''**''" "list_all not_newline label" by blast
    moreover from c have "not_newline c" by (simp add: not_newline_def)
    ultimately show ?thesis
      using m by (intro exI [of _ "c # label"]) simp
  qed
qed

lemma match_marker_shape:
  assumes "match_marker s = Some (m, r)"
  shows "is_marker m"
proof -
  from assms obtain r3 m' where
    ds: "takeWhile is_digit (drop 8 s) \<noteq> []" and
    l: "lazy_until_stars r3 = Some (m', r)" and
    m: "m = ''**Slide '' @ takeWhile is_digit (drop 8 s) @ '':'' @ m'"
    by (auto simp: match_marker_def Let_def split: if_splits list.splits option.splits)
  from lazy_until_stars_shape [OF l] obtain label where
    "m' = label @ ''**''" "list_all not_newline label" by blast
  moreover have "list_all is_digit (takeWhile is_digit (drop 8 s))"
    unfolding list_all_iff by (blast dest: set_takeWhileD)
  ultimately show ?thesis
    unfolding is_marker_def using ds m
    by (intro exI [of _ "takeWhile is_digit (drop 8 s)"] exI [of _ label]) simp
qed

lemma re_findall_marker_shape:
  "list_all is_marker (re_findall_marker s)"
  by (induction s rule: re_findall_marker.induct)
     (auto dest: match_marker_shape split: option.splits)

lemma re_search_title_None:
  "re_search_title s = None \<longleftrightarrow> \<not> sublist ''**Title:**'' s"
proof (induction s)
  case Nil
  show ?case by simp
next
  case (Cons c cs)
  define p where "p = ''**Title:**''"
  have "re_search_title (c # cs) = None \<longleftrightarrow> \<not> prefix p (c # cs) \<and> re_search_title cs = None"
    unfolding p_def by (simp del: Cons_prefix_Cons)
  also have "\<dots> \<longleftrightarrow> \<not> prefix p (c # cs) \<and> \<not> sublist p cs"
    using Cons.IH unfolding p_def by blast
  also have "\<dots> \<longleftrightarrow> \<not> sublist p (c # cs)"
    by (simp only: sublist_Cons_right [of p c cs] de_Morgan_disj)
  finally show ?case
    unfolding p_def .
qed

lemma lazy_until_stars_complete:
  "list_all not_newline label \<Longrightarrow> lazy_until_stars (label @ ''**'' @ r) \<noteq> None"
proof (induction label)
  case Nil
  show ?case by simp
next
  case (Cons c label)
  then have "c \<noteq> newline" and "lazy_until_stars (label @ ''**'' @ r) \<noteq> None"
    by (simp_all add: not_newline_def)
  then show ?case
    by (auto simp del: Cons_prefix_Cons)
qed

lemma colon_not_digit: "\<not> is_digit CHR '':''"
  by (simp add: is_digit_def)

lemma match_marker_complete:
  assumes "is_marker m"
  shows "match_marker (m @ r) \<noteq> None"
proof -
  from assms obtain ds label where
    m: "m = ''**Slide '' @ ds @ '':'' @ label @ ''**''" and
    ds: "ds \<noteq> []" "list_all is_digit ds" and
    label: "list_all not_newline label"
    unfolding is_marker_def by blast
  let ?rest = "label @ ''**'' @ r"
  have s: "m @ r = ''**Slide '' @ (ds @ CHR '':'' # ?rest)"
    by (simp add: m)
  have p: "prefix ''**Slide '' (m @ r)"
    unfolding s by (rule prefixI) (rule refl)
  have d: "drop 8 (m @ r) = ds @ CHR '':'' # ?rest"
    unfolding s by simp
  have t: "takeWhile is_digit (ds @ CHR '':'' # ?rest) = ds"
    using ds(2) by (simp add: takeWhile_append2 list_all_iff colon_not_digit)
  have w: "dropWhile is_digit (ds @ CHR '':'' # ?rest) = CHR '':'' # ?rest"
    using ds(2) by (simp add: dropWhile_append2 list_all_iff colon_not_digit)
  from lazy_until_stars_complete [OF label, of r]
  obtain x where "lazy_until_stars ?rest = Some x"
    by blast
  then show ?thesis
    unfolding match_marker_def d Let_def t w using p ds(1)
    by (cases x) (simp del: Cons_prefix_Cons)
qed

text \<open>The matcher succeeds exactly on the texts that start with a marker.\<close>

lemma match_marker_iff:
  "match_marker s \<noteq> None \<longleftrightarrow> (\<exists>m r. s = m @ r \<and> is_marker m)"
  using match_marker_append match_marker_shape match_marker_complete
  by (metis not_None_eq surj_pair)

lemma is_marker_nonempty: "is_marker m \<Longrightarrow> m \<noteq> []"
  by (auto simp: is_marker_def)

lemma not_contains_marker_Nil: "\<not> contains_marker []"
  by (auto simp: contains_marker_def dest: is_marker_nonempty)

lemma contains_marker_Cons:
  "contains_marker (c # f) \<longleftrightarrow> (\<exists>m r. c # f = m @ r \<and> is_marker m) \<or> contains_marker f"
proof
  assume "contains_marker (c # f)"
  then obtain p m r where e: "c # f = p @ m @ r" and m: "is_marker m"
    unfolding contains_marker_def by blast
  show "(\<exists>m r. c # f = m @ r \<and> is_marker m) \<or> contains_marker f"
  proof (cases p)
    case Nil
    with e m show ?thesis by auto
  next
    case (Cons a p')
    with e have "f = p' @ m @ r" by simp
    with m show ?thesis unfolding contains_marker_def by blast
  qed
next
  assume "(\<exists>m r. c # f = m @ r \<and> is_marker m) \<or> contains_marker f"
  then show "contains_marker (c # f)"
  proof
    assume "\<exists>m r. c # f = m @ r \<and> is_marker m"
    then obtain m r where "c # f = [] @ m @ r" "is_marker m" by auto
    then show ?thesis unfolding contains_marker_def by blast
  next
    assume "contains_marker f"
    then obtain p m r where "f = p @ m @ r" "is_marker m"
      unfolding contains_marker_def by blast
    then have "c # f = (c # p) @ m @ r" "is_marker m" by simp_all
    then show ?thesis unfolding contains_marker_def by blast
  qed
qed

lemma hd_split_prefix:
  "re_split_marker s = f # fs \<Longrightarrow> prefix f s"
proof -
  assume e: "re_split_marker s = f # fs"
  have "interleave (f # fs) (re_findall_marker s) = s"
    using interleave_markers [of s] e by simp
  then show ?thesis
    by (cases "re_findall_marker s") (auto simp: prefix_def)
qed

lemma fragments_marker_free:
  "\<forall>f \<in> set (re_split_marker s). \<not> contains_marker f"
proof (induction s rule: re_split_marker.induct)
  case 1
  show ?case by (simp add: not_contains_marker_Nil)
next
  case (2 c cs)
  show ?case
  proof (cases "match_marker (c # cs)")
    case (Some a)
    then obtain m r where a: "match_marker (c # cs) = Some (m, r)"
      by (cases a) simp
    from "2.IH"(2) [OF a refl] a show ?thesis
      by (simp add: not_contains_marker_Nil)
  next
    case None
    obtain f fs where fs: "re_split_marker cs = f # fs"
      using re_split_marker_nonempty [of cs] by (cases "re_split_marker cs") auto
    from "2.IH"(1) [OF None] fs have ih: "\<not> contains_marker f" "\<forall>g \<in> set fs. \<not> contains_marker g"
      by simp_all
    have "\<not> (\<exists>m r. c # f = m @ r \<and> is_marker m)"
    proof
      assume "\<exists>m r. c # f = m @ r \<and> is_marker m"
      then obtain m r where e: "c # f = m @ r" and m: "is_marker m" by blast
      from hd_split_prefix [OF fs] obtain t where "cs = f @ t"
        by (auto simp: prefix_def)
      with e have "c # cs = m @ (r @ t)" by simp
      with m have "match_marker (c # cs) \<noteq> None"
        using match_marker_complete by metis
      with None show False by simp
    qed
    with ih(1) have "\<not> contains_marker (c # f)"
      by (simp add: contains_marker_Cons)
    with ih(2) None fs show ?thesis
      by (simp add: cons_first_def)
  qed
qed


lemma parse_slides_eq:
  "parse_slides text =
     Inr (map (\<lambda>i. build_record i (re_split_marker text ! (i + 1)))
            [0 ..< length (re_findall_marker text)])"
proof -
  let ?hs = "re_findall_marker text" and ?fs = "re_split_marker text"
  have len: "length ?fs = length ?hs + 1"
    by (rule length_re_split_marker)
  have "map (\<lambda>(j, h). build_record j (if j + 1 < length ?fs then ?fs ! (j + 1) else []))
          (enumerate 0 ?hs) =
        map (\<lambda>i. build_record i (?fs ! (i + 1))) [0 ..< length ?hs]"
    by (rule nth_equalityI) (simp_all add: len nth_enumerate_eq)
  then show ?thesis
    by (simp add: parse_slides_def slide_loop_eq)
qed

lemma example_markers: "re_findall_marker example_text = [''**Slide 1: X**'', ''**Slide 2: Y**'']"
  by code_simp

lemma example_fragments: "length (re_split_marker example_text) = 3"
  by code_simp

lemma no_markers: "re_findall_marker ''Nothing to see here.'' = []"
  by code_simp

lemma eleven: "length (re_findall_marker eleven_markers) = 11"
  by code_simp

text \<open>
  Where an exception of a library leaves the extraction and where it does not: none
  leaves it when the first library reads every page, or when the first library cannot open
  the file and the second reads every page; the one of the second library leaves it when
  neither can open the file.
\<close>

lemma plumber_loop_returns:
  "(\<And>e. Inl e \<notin> set pages) \<Longrightarrow> \<not> snd (plumber_loop i pages acc)"
proof (induction pages arbitrary: i acc)
  case Nil
  show ?case by simp
next
  case (Cons page pages)
  from Cons.prems obtain page_text where p: "page = Inr page_text"
    by (cases page) auto
  have "\<not> snd (plumber_loop j pages t)" for j t
    using Cons.prems by (intro Cons.IH) auto
  then show ?case
    by (simp add: p Let_def)
qed

lemma pypdf_loop_returns:
  "(\<And>e. Inl e \<notin> set pages) \<Longrightarrow> \<exists>text'. pypdf_loop pages acc = Inr text'"
proof (induction pages arbitrary: acc)
  case Nil
  show ?case by simp
next
  case (Cons page pages)
  from Cons.prems obtain t where p: "page = Inr t"
    by (cases page) auto
  have "\<exists>text'. pypdf_loop pages u = Inr text'" for u
    using Cons.prems by (intro Cons.IH) auto
  then show ?case
    by (simp add: p Let_def)
qed

lemma extract_text_primary_returns:
  assumes "plumber pdf = Inr pages" and "\<And>e. Inl e \<notin> set pages"
  shows "\<exists>r. extract_text pdf = Inr r"
proof -
  have "\<not> snd (plumber_loop 0 pages [])"
    using assms(2) by (rule plumber_loop_returns)
  then show ?thesis
    by (cases "plumber_loop 0 pages []") (simp add: extract_text_def primary_def assms(1))
qed

lemma extract_text_fallback_returns:
  assumes "plumber pdf = Inl e1" and "pypdf pdf = Inr pages" and "\<And>e. Inl e \<notin> set pages"
  shows "\<exists>r. extract_text pdf = Inr r"
proof -
  from pypdf_loop_returns [of pages "[]"] assms(3)
  obtain text' where "pypdf_loop pages [] = Inr text'" by blast
  then show ?thesis
    by (simp add: extract_text_def primary_def fallback_def assms(1,2))
qed

lemma extract_text_both_raise:
  assumes "plumber pdf = Inl e1" and "pypdf pdf = Inl e2"
  shows "extract_text pdf = Inl (Raised e2)"
  by (simp add: extract_text_def primary_def fallback_def assms)

text \<open>
  A turn whose call of \<open>send_message\<close> raises: the error is shown, the user message
  stays in the history, and the read of the unbound \<open>response\<close> raises.
\<close>

lemma chat_turn_failure:
  assumes "p \<noteq> []" and "call_send_message send_message (chat_session st) p = Inl m"
  shows "chat_turn send_message st ui (Some p) =
           (Inl UnboundLocalError,
            st\<lparr>messages := messages st @ [\<lparr>role = ''user'', content = p\<rparr>]\<rparr>,
            ui @ [Chat_markdown ''user'' p, Chat_markdown ''assistant'' (''Error: '' @ m)])"
  using assms by (simp add: chat_turn_def try_send_def Let_def)

section \<open>The claims\<close>

subsection \<open>The slide parser\<close>

text \<open>
  C1, as the specification gives it: on the sample text the parser returns the two records
  with titles \<open>A\<close> and \<open>C\<close> and bullets \<open>B1\<close>, \<open>B2\<close>. It does not: the title keeps
  its quote characters (\<open>strip\<close> removes white space only), and the bullet pattern matches
  the \<open>Title\<close> line, which starts with an asterisk and a blank like every bullet.
\<close>

theorem parse_example_counterexample:
  "parse_slides example_text \<noteq> Inr claimed_records"
  by code_simp

text \<open>
  C1, amended: on the sample text the parser returns two records; the first has the title
  \<open>"A"\<close> with its quotes and the bullets \<open>**Title:** "A"\<close>, \<open>B1\<close>, \<open>B2\<close>; the second
  has the title \<open>"C"\<close> with its quotes and the single bullet \<open>**Title:** "C"\<close>.
\<close>

theorem parse_example:
  "parse_slides example_text =
     Inr [\<lparr>title = [dquote] @ ''A'' @ [dquote],
           bullets = [''**Title:** '' @ [dquote] @ ''A'' @ [dquote], ''B1'', ''B2'']\<rparr>,
          \<lparr>title = [dquote] @ ''C'' @ [dquote],
           bullets = [''**Title:** '' @ [dquote] @ ''C'' @ [dquote]]\<rparr>]"
  by code_simp

text \<open>
  C2: a text with \<open>k\<close> slide markers gives exactly \<open>k\<close> records, and record \<open>i\<close> is built
  from the body that follows marker \<open>i\<close>. The markers are the matches that \<open>findall\<close>
  returns: the text is fragment 0, marker 0, fragment 1, and so on up to fragment \<open>k\<close>,
  every marker has the marker shape, and no fragment contains text of that shape. Record
  \<open>i\<close> is built from fragment \<open>i + 1\<close>.
\<close>

theorem parse_slides_markers:
  "parse_slides text =
     Inr (map (\<lambda>i. build_record i (re_split_marker text ! (i + 1)))
            [0 ..< length (re_findall_marker text)]) \<and>
   length (re_split_marker text) = length (re_findall_marker text) + 1 \<and>
   interleave (re_split_marker text) (re_findall_marker text) = text \<and>
   list_all is_marker (re_findall_marker text) \<and>
   (\<forall>f \<in> set (re_split_marker text). \<not> contains_marker f)"
  by (intro conjI parse_slides_eq length_re_split_marker interleave_markers
        re_findall_marker_shape fragments_marker_free)

theorem parse_slides_markers_witness:
  "parse_slides example_text =
     Inr [build_record 0 (re_split_marker example_text ! 1),
          build_record 1 (re_split_marker example_text ! 2)] \<and>
   length (re_split_marker example_text) = 3 \<and>
   is_marker ''**Slide 1: X**'' \<and> is_marker ''**Slide 2: Y**'' \<and>
   \<not> contains_marker (re_split_marker example_text ! 1)"
proof -
  have "re_split_marker example_text ! 1 \<in> set (re_split_marker example_text)"
    by (rule nth_mem) (simp add: example_fragments)
  with parse_slides_markers [of example_text] show ?thesis
    by (simp add: example_markers upt_rec numeral_2_eq_2)
qed

text \<open>
  C5: on every text the parser returns a list of records, it raises nothing (and it
  terminates: every function of the model is total); on a text without a slide marker the
  list is empty and the presentation holds the title slide alone.
\<close>

theorem parse_slides_total:
  "(\<exists>records. parse_slides text = Inr records) \<and>
   (re_findall_marker text = [] \<longrightarrow>
      parse_slides text = Inr [] \<and>
      generate_powerpoint ppt_title today text = Inr [title_slide ppt_title today])"
  by (simp add: parse_slides_eq generate_powerpoint_def render_def)

theorem parse_slides_total_witness:
  "re_findall_marker ''Nothing to see here.'' = [] \<and>
   parse_slides ''Nothing to see here.'' = Inr [] \<and>
   generate_powerpoint ''Business Report'' ''03 November 2026'' ''Nothing to see here.'' =
     Inr [title_slide ''Business Report'' ''03 November 2026'']"
  using parse_slides_total [of "''Nothing to see here.''" "''Business Report''" "''03 November 2026''"]
    no_markers by simp

text \<open>
  C6: when the list of fragments has fewer than \<open>i + 2\<close> entries, iteration \<open>i\<close> of the
  loop takes the empty string as its content and raises no \<open>IndexError\<close>: the loop ends
  normally and its record \<open>i\<close> is the one built from the empty string.
\<close>

theorem slide_content_fallback:
  assumes "length slides < i + 2" and "i < length headers"
  shows "slide_content slides i = Inr [] \<and>
         (\<exists>records. slide_loop slides 0 headers = Inr records \<and>
            length records = length headers \<and> records ! i = build_record i [])"
  using assms by (simp add: slide_content_total slide_loop_eq nth_enumerate_eq)

theorem slide_content_fallback_witness:
  "length [''preamble''] < (0::nat) + 2 \<and> (0::nat) < length [''**Slide 1: X**''] \<and>
   slide_content [''preamble''] 0 = Inr [] \<and>
   slide_loop [''preamble''] 0 [''**Slide 1: X**''] = Inr [build_record 0 []]"
proof -
  have h1: "length [''preamble''] < (0::nat) + 2" by simp
  have h2: "(0::nat) < length [''**Slide 1: X**'']" by simp
  from slide_content_fallback [OF h1 h2] show ?thesis
    by (auto simp: length_Suc_conv)
qed

text \<open>
  C7: when the body of slide \<open>i\<close> has no match of the title pattern, that is when
  \<open>**Title:**\<close> does not occur in it, the title of the record is \<open>Slide\<close> followed by
  the number \<open>i + 2\<close>.
\<close>

theorem slide_title_fallback:
  assumes "\<not> sublist ''**Title:**'' body"
  shows "title (build_record i body) = ''Slide '' @ str_nat (i + 2)"
  using assms by (simp add: build_record_def slide_title_def re_search_title_None [symmetric])

theorem slide_title_fallback_witness:
  "\<not> sublist ''**Title:**'' ''* Title: B1'' \<and>
   title (build_record 3 ''* Title: B1'') = ''Slide 5''"
proof -
  have h: "\<not> sublist ''**Title:**'' ''* Title: B1''" by code_simp
  have "str_nat 5 = ''5''" by code_simp
  with slide_title_fallback [OF h, of 3] h show ?thesis by simp
qed

text \<open>
  C8: \<open>MAX_SLIDES\<close> is not applied to the parser's output: a text with more markers than
  \<open>MAX_SLIDES\<close> still gives one record per marker, and the presentation one slide per
  marker after the title slide.
\<close>

theorem max_slides_not_applied:
  assumes "MAX_SLIDES < length (re_findall_marker text)"
  shows "\<exists>records prs. parse_slides text = Inr records \<and>
           length records = length (re_findall_marker text) \<and>
           MAX_SLIDES < length records \<and>
           generate_powerpoint ppt_title today text = Inr prs \<and>
           length prs = length (re_findall_marker text) + 1"
  using assms by (simp add: parse_slides_eq generate_powerpoint_def render_def)

theorem max_slides_not_applied_witness:
  "MAX_SLIDES < length (re_findall_marker eleven_markers) \<and>
   (\<exists>records. parse_slides eleven_markers = Inr records \<and> length records = 11)"
proof -
  have h: "MAX_SLIDES < length (re_findall_marker eleven_markers)"
    by (simp add: eleven MAX_SLIDES_def)
  from max_slides_not_applied [OF h, of "''T''" "''D''"] h show ?thesis
    by (auto simp: eleven)
qed

subsection \<open>The conversation turn\<close>

text \<open>
  C3: the turn whose \<open>send_message\<close> raises. The handler catches the exception and shows
  \<open>Error: boom\<close> as the assistant, and the history keeps every earlier message and the
  new user message; but the statement after the \<open>try\<close> reads \<open>response.text\<close> while
  \<open>response\<close> is unbound, so \<open>UnboundLocalError\<close> leaves the handler.
\<close>

theorem chat_turn_send_failure_raises:
  "chat_turn failing_send ready_state [] (Some ''hi'') =
     (Inl UnboundLocalError,
      ready_state\<lparr>messages := messages ready_state @ [\<lparr>role = ''user'', content = ''hi''\<rparr>]\<rparr>,
      [Chat_markdown ''user'' ''hi'', Chat_markdown ''assistant'' ''Error: boom''])"
  by (simp add: chat_turn_def try_send_def call_send_message_def failing_send_def
        ready_state_def Let_def)

text \<open>
  C4: in a turn with a submitted prompt and a successful reply the handler ends normally
  and the history is the old one followed by the user message and then the assistant
  message: two entries more, and the old entries unchanged.
\<close>

theorem chat_turn_success:
  assumes "p \<noteq> []"
    and "call_send_message send_message (chat_session st) p = Inr (Inr reply)"
  shows "chat_turn send_message st ui (Some p) =
           (Inr (),
            st\<lparr>messages := messages st @
                 [\<lparr>role = ''user'', content = p\<rparr>, \<lparr>role = ''assistant'', content = reply\<rparr>]\<rparr>,
            ui @ [Chat_markdown ''user'' p, Chat_markdown ''assistant'' reply])
         \<and> length (messages (fst (snd (chat_turn send_message st ui (Some p))))) =
             length (messages st) + 2
         \<and> take (length (messages st)) (messages (fst (snd (chat_turn send_message st ui (Some p))))) =
             messages st"
  using assms by (simp add: chat_turn_def try_send_def Let_def)

theorem chat_turn_success_witness:
  "''hi'' \<noteq> [] \<and>
   call_send_message echo_send (chat_session ready_state) ''hi'' = Inr (Inr ''You said: hi'') \<and>
   messages (fst (snd (chat_turn echo_send ready_state [] (Some ''hi'')))) =
     [\<lparr>role = ''assistant'', content = ''Hi! Ready to help with your PDF.''\<rparr>,
      \<lparr>role = ''user'', content = ''hi''\<rparr>,
      \<lparr>role = ''assistant'', content = ''You said: hi''\<rparr>]"
proof -
  have h1: "''hi'' \<noteq> []" by simp
  have h2: "call_send_message echo_send (chat_session ready_state) ''hi'' = Inr (Inr ''You said: hi'')"
    by (simp add: call_send_message_def echo_send_def ready_state_def)
  show ?thesis
    using h1 h2 chat_turn_success [OF h1 h2, of "[]"] by (simp add: ready_state_def)
qed

subsection \<open>Text extraction\<close>

text \<open>
  C9: extraction on an upload that neither library can open. The handler is to show
  \<open>Failed to extract text.\<close> and return; instead the second library runs in the
  \<open>except\<close> block, outside any \<open>try\<close>, its exception leaves the handler, and the line
  that shows the error is never reached.
\<close>

theorem extract_text_escapes:
  "extract_text broken_pdf = Inl (Raised ''fallback failed'')"
  by (simp add: extract_text_def primary_def fallback_def broken_pdf_def)

end
